theory Spec2Isabelle
  imports Main
begin

section \<open>The data of enyo/Selection\<close>

text \<open>
  The Selection kind keeps three fields: the published flag \<open>multi\<close>, the object
  \<open>selected\<close> (a hash from row key to payload) and \<open>lastSelected\<close>. Its methods hand
  notifications to \<open>doSelect\<close>, \<open>doDeselect\<close> and \<open>doChange\<close>.

  JavaScript values are modelled as far as the methods inspect them. A number is an
  integer; where a statement depends on the number being one that a double holds
  exactly and prints as its decimal numeral, it says \<open>safe_integer\<close>. Observers of the
  notifications do not call back into the Selection, and \<open>selected\<close> is read and written
  through the methods only.
\<close>

datatype jsval =
    VUndef
  | VNull
  | VBool bool
  | VNum int
  | VStr string
  | VObj nat
  | VMember string

text \<open>
  \<open>VObj\<close> is an object supplied by the caller; \<open>VMember n\<close> is what the member \<open>n\<close> of
  \<open>Object.prototype\<close> reads as (a function, for \<open>__proto__\<close> the prototype itself).
  \<open>truthy\<close> is JavaScript's ToBoolean, as used by \<open>if (...)\<close>, \<open>!\<close> and \<open>||\<close>.
\<close>

fun truthy :: "jsval \<Rightarrow> bool" where
  "truthy VUndef = False"
| "truthy VNull = False"
| "truthy (VBool b) = b"
| "truthy (VNum n) = (n \<noteq> 0)"
| "truthy (VStr s) = (s \<noteq> [])"
| "truthy (VObj r) = True"
| "truthy (VMember n) = True"

text \<open>
  A key as the methods receive it: a number, a string, or \<open>undefined\<close> (the value of
  \<open>lastSelected\<close> before the first selection, and of a missing argument).
\<close>

datatype key = KUndef | KNum int | KStr string

subsection \<open>Numbers and their numerals\<close>

text \<open>\<open>Number.isSafeInteger\<close>: the integers of magnitude below \<open>2^53\<close>.\<close>

definition safe_integer :: "int \<Rightarrow> bool" where
  "safe_integer n = (- 9007199254740991 \<le> n \<and> n \<le> 9007199254740991)"

fun safe_key :: "key \<Rightarrow> bool" where
  "safe_key (KNum n) = safe_integer n"
| "safe_key k = True"

text \<open>
  \<open>decimal n\<close> is the decimal numeral of \<open>n\<close>, which is what ToString gives for a safe
  integer. \<open>numeral_value\<close> reads a string of digits with an optional minus sign, and
  \<open>numeral_of s\<close> is \<open>n\<close> exactly when \<open>s\<close> is the decimal numeral of \<open>n\<close>.
\<close>

definition digit_chars :: string where
  "digit_chars = ''0123456789''"

fun decimal_nat :: "nat \<Rightarrow> string" where
  "decimal_nat n =
     (if n < 10 then [digit_chars ! n]
      else decimal_nat (n div 10) @ [digit_chars ! (n mod 10)])"

declare decimal_nat.simps [simp del]

definition decimal :: "int \<Rightarrow> string" where
  "decimal n = (if n < 0 then CHR ''-'' # decimal_nat (nat (- n)) else decimal_nat (nat n))"

text \<open>The value of a digit is its position in \<open>digit_chars\<close>.\<close>

definition digit_value :: "char \<Rightarrow> nat" where
  "digit_value c = length (takeWhile (\<lambda>d. d \<noteq> c) digit_chars)"

fun value_nat :: "string \<Rightarrow> nat \<Rightarrow> nat" where
  "value_nat [] a = a"
| "value_nat (c # cs) a = value_nat cs (10 * a + digit_value c)"

fun numeral_value :: "string \<Rightarrow> int" where
  "numeral_value [] = 0"
| "numeral_value (c # cs) =
     (if c = CHR ''-'' then - int (value_nat cs 0) else int (value_nat (c # cs) 0))"

definition numeral_of :: "string \<Rightarrow> int option" where
  "numeral_of s = (if decimal (numeral_value s) = s then Some (numeral_value s) else None)"

text \<open>
  ToNumber of a string, as far as the embedding determines it. The empty string converts
  to 0, and a string of decimal digits with an optional sign converts to the integer it
  writes (leading zeros allowed), which is exact when that integer is safe. A string
  that starts with a letter other than \<open>I\<close>, with \<open>_\<close> or with \<open>$\<close> is no numeric literal
  and converts to NaN. For every other string (\<open>' 1'\<close>, \<open>'2.5'\<close>, \<open>'1e3'\<close>, \<open>'0x10'\<close>,
  \<open>'Infinity'\<close>, digits beyond the safe range, ...) the result is \<open>TUnknown\<close>.
\<close>

datatype tonum = TInt int | TNaN | TUnknown

definition all_digits :: "string \<Rightarrow> bool" where
  "all_digits s = (s \<noteq> [] \<and> list_all (\<lambda>c. c \<in> set digit_chars) s)"

fun integer_literal :: "string \<Rightarrow> int option" where
  "integer_literal [] = Some 0"
| "integer_literal (c # cs) =
     (if c = CHR ''-'' then (if all_digits cs then Some (- int (value_nat cs 0)) else None)
      else if c = CHR ''+'' then (if all_digits cs then Some (int (value_nat cs 0)) else None)
      else if all_digits (c # cs) then Some (int (value_nat (c # cs) 0))
      else None)"

definition nan_string :: "string \<Rightarrow> bool" where
  "nan_string s =
     (case s of [] \<Rightarrow> False
      | c # cs \<Rightarrow> c \<in> set ''abcdefghijklmnopqrstuvwxyzABCDEFGHJKLMNOPQRSTUVWXYZ_$'')"

definition to_number :: "string \<Rightarrow> tonum" where
  "to_number s =
     (case integer_literal s of
        Some n \<Rightarrow> if safe_integer n then TInt n else TUnknown
      | None \<Rightarrow> if nan_string s then TNaN else TUnknown)"

subsection \<open>The object selected\<close>

text \<open>
  A property name is a string; \<open>pkey\<close> is the conversion that \<open>this.selected[key]\<close>
  applies to \<open>key\<close>, so the number 1 and the string \<open>'1'\<close> name one property.
\<close>

type_synonym pname = string

fun pkey :: "key \<Rightarrow> pname" where
  "pkey KUndef = ''undefined''"
| "pkey (KNum n) = decimal n"
| "pkey (KStr s) = s"

text \<open>
  \<open>selected\<close> is created by \<open>{}\<close>, so a name it does not hold itself is looked up in
  \<open>Object.prototype\<close>: \<open>inherited p\<close> is what such a read gives.
\<close>

definition object_members :: "pname list" where
  "object_members =
     [''constructor'', ''hasOwnProperty'', ''isPrototypeOf'', ''propertyIsEnumerable'',
      ''toLocaleString'', ''toString'', ''valueOf'', ''__proto__'',
      ''__defineGetter__'', ''__defineSetter__'', ''__lookupGetter__'', ''__lookupSetter__'']"

definition is_member :: "pname \<Rightarrow> bool" where
  "is_member p = (p \<in> set object_members)"

definition inherited :: "pname \<Rightarrow> jsval" where
  "inherited p = (if is_member p then VMember p else VUndef)"

text \<open>
  The object, as the list of its own properties in the order of their creation.
  \<open>obj_keys\<close> is what \<open>for (p in o)\<close> enumerates, \<open>obj_has\<close> is \<open>hasOwnProperty\<close>,
  \<open>obj_get\<close> is \<open>o[p]\<close>, \<open>obj_delete\<close> is \<open>delete o[p]\<close> and \<open>obj_set\<close> is \<open>o[p] = v\<close>.
  An assignment creates or updates an own property, except under the name \<open>__proto__\<close>
  when the object has no own property of that name: it then reaches the setter of
  \<open>Object.prototype\<close>, which creates none. (The setter replaces the prototype when \<open>v\<close>
  is an object; the methods assign under \<open>__proto__\<close> only in
  \<open>setByKey('__proto__', true, d)\<close>, and the embedding does not follow a prototype
  replaced by such a call with an object \<open>d\<close>: its states have the prototype that \<open>{}\<close>
  gives.)
\<close>

type_synonym obj = "(pname \<times> jsval) list"

definition obj_keys :: "obj \<Rightarrow> pname list" where
  "obj_keys ob = map fst ob"

definition obj_has :: "obj \<Rightarrow> pname \<Rightarrow> bool" where
  "obj_has ob p = (p \<in> set (obj_keys ob))"

fun obj_get :: "obj \<Rightarrow> pname \<Rightarrow> jsval" where
  "obj_get [] p = inherited p"
| "obj_get ((q, v) # ps) p = (if q = p then v else obj_get ps p)"

fun obj_put :: "pname \<Rightarrow> jsval \<Rightarrow> obj \<Rightarrow> obj" where
  "obj_put p v [] = [(p, v)]"
| "obj_put p v ((q, w) # ps) = (if q = p then (q, v) # ps else (q, w) # obj_put p v ps)"

definition obj_set :: "pname \<Rightarrow> jsval \<Rightarrow> obj \<Rightarrow> obj" where
  "obj_set p v ob = (if p = ''__proto__'' \<and> \<not> obj_has ob p then ob else obj_put p v ob)"

fun obj_delete :: "pname \<Rightarrow> obj \<Rightarrow> obj" where
  "obj_delete p [] = []"
| "obj_delete p ((q, w) # ps) = (if q = p then obj_delete p ps else (q, w) # obj_delete p ps)"

datatype event = OnSelect key jsval | OnDeselect key jsval | OnChange

record selection =
  multi :: bool
  selected :: obj
  lastSelected :: key
  fired :: "event list"

section \<open>Notifications\<close>

text \<open>
  The methods \<open>doSelect\<close>, \<open>doDeselect\<close> and \<open>doChange\<close> are generated by the kind
  machinery from the \<open>events\<close> block, which is not among the sources. The field \<open>fired\<close>
  records the notifications they emit, oldest first.
\<close>

text \<open>
  Modelled from the spec: \<open>doSelect\<close> is missing; the select notification is emitted
  synchronously and delivers \<open>{key, data}\<close>.
\<close>

definition doSelect :: "key \<Rightarrow> jsval \<Rightarrow> selection \<Rightarrow> selection" where
  "doSelect k d s = s\<lparr>fired := fired s @ [OnSelect k d]\<rparr>"

text \<open>
  Modelled from the spec: \<open>doDeselect\<close> is missing; the deselect notification is emitted
  synchronously and delivers \<open>{key, data}\<close>.
\<close>

definition doDeselect :: "key \<Rightarrow> jsval \<Rightarrow> selection \<Rightarrow> selection" where
  "doDeselect k d s = s\<lparr>fired := fired s @ [OnDeselect k d]\<rparr>"

text \<open>
  Modelled from the spec: \<open>doChange\<close> is missing; the change notification is emitted
  synchronously and carries no payload.
\<close>

definition doChange :: "selection \<Rightarrow> selection" where
  "doChange s = s\<lparr>fired := fired s @ [OnChange]\<rparr>"

section \<open>The methods\<close>

definition clear :: "selection \<Rightarrow> selection" where
  "clear s = s\<lparr>selected := []\<rparr>"

text \<open>
  \<open>create\<close> calls \<open>clear\<close> on the new instance; \<open>multi\<close> is the published default
  \<open>false\<close> or the value given in the component's configuration.
\<close>

definition create :: "bool \<Rightarrow> selection" where
  "create m = clear \<lparr>multi = m, selected = [], lastSelected = KUndef, fired = []\<rparr>"

definition isSelected :: "key \<Rightarrow> selection \<Rightarrow> jsval" where
  "isSelected k s = obj_get (selected s) (pkey k)"

text \<open>\<open>data || true\<close>\<close>

definition or_true :: "jsval \<Rightarrow> jsval" where
  "or_true d = (if truthy d then d else VBool True)"

definition setByKey :: "key \<Rightarrow> bool \<Rightarrow> jsval \<Rightarrow> selection \<Rightarrow> selection" where
  "setByKey k sel d s =
     (if sel then
        (let s1 = s\<lparr>selected := obj_set (pkey k) (or_true d) (selected s)\<rparr>;
             s2 = s1\<lparr>lastSelected := k\<rparr>;
             s3 = doSelect k (obj_get (selected s2) (pkey k)) s2
         in doChange s3)
      else
        (let was = isSelected k s;
             s1 = s\<lparr>selected := obj_delete (pkey k) (selected s)\<rparr>;
             s2 = doDeselect k was s1
         in doChange s2))"

definition deselect :: "key \<Rightarrow> selection \<Rightarrow> selection" where
  "deselect k s = (if truthy (isSelected k s) then setByKey k False VUndef s else s)"

definition highlander :: "selection \<Rightarrow> selection" where
  "highlander s = (if \<not> multi s then deselect (lastSelected s) s else s)"

definition multiChanged :: "selection \<Rightarrow> selection" where
  "multiChanged s = doChange (if \<not> multi s then clear s else s)"

definition select :: "key \<Rightarrow> jsval \<Rightarrow> selection \<Rightarrow> selection" where
  "select k d s =
     (if multi s then setByKey k (\<not> truthy (isSelected k s)) d s
      else if \<not> truthy (isSelected k s) then setByKey k True d (highlander s)
      else s)"

text \<open>
  \<open>this.lastSelected != key\<close>, JavaScript's loose inequality: \<open>undefined\<close> equals only
  itself, two numbers or two strings are compared as they are, and a number is compared
  with ToNumber of a string. \<open>loose_known\<close> says that the embedding determines the
  comparison; where it does not (\<open>to_number\<close> is \<open>TUnknown\<close>), \<open>loose_ne\<close> takes the two
  for different and its value carries no information.
\<close>

fun loose_ne :: "key \<Rightarrow> key \<Rightarrow> bool" where
  "loose_ne KUndef KUndef = False"
| "loose_ne KUndef (KNum b) = True"
| "loose_ne KUndef (KStr t) = True"
| "loose_ne (KNum a) KUndef = True"
| "loose_ne (KStr s) KUndef = True"
| "loose_ne (KNum a) (KNum b) = (a \<noteq> b)"
| "loose_ne (KStr s) (KStr t) = (s \<noteq> t)"
| "loose_ne (KNum a) (KStr t) = (to_number t \<noteq> TInt a)"
| "loose_ne (KStr s) (KNum b) = (to_number s \<noteq> TInt b)"

fun loose_known :: "key \<Rightarrow> key \<Rightarrow> bool" where
  "loose_known (KNum a) (KStr t) = (to_number t \<noteq> TUnknown)"
| "loose_known (KStr s) (KNum b) = (to_number s \<noteq> TUnknown)"
| "loose_known a b = True"

definition toggle :: "key \<Rightarrow> jsval \<Rightarrow> selection \<Rightarrow> selection" where
  "toggle k d s =
     (let s1 = (if \<not> multi s \<and> loose_ne (lastSelected s) k
                then deselect (lastSelected s) s else s)
      in setByKey k (\<not> truthy (isSelected k s1)) d s1)"

definition getSelected :: "selection \<Rightarrow> obj" where
  "getSelected s = selected s"

text \<open>
  \<open>remove(key)\<close> with a number as \<open>key\<close>. \<open>remove_row\<close> is the body of the loop for the
  property \<open>row\<close>: \<open>row\<close> is a string, so \<open>row < key\<close>, \<open>row > key\<close> and \<open>row - 1\<close>
  convert it with ToNumber; for NaN both comparisons are false. \<open>rows_known\<close> says
  that the embedding determines ToNumber of every row; a row for which it does not is
  left out of \<open>newSelected\<close>, which then carries no information about the code.
\<close>

fun remove_row :: "int \<Rightarrow> obj \<Rightarrow> pname \<Rightarrow> obj \<Rightarrow> obj" where
  "remove_row k sel row new =
     (case to_number row of
        TInt r \<Rightarrow>
          (if r < k then obj_set row (obj_get sel row) new
           else if r > k then obj_set (decimal (r - 1)) (obj_get sel row) new
           else new)
      | TNaN \<Rightarrow> new
      | TUnknown \<Rightarrow> new)"

definition rows_known :: "obj \<Rightarrow> bool" where
  "rows_known ob = list_all (\<lambda>row. to_number row \<noteq> TUnknown) (obj_keys ob)"

definition remove :: "int \<Rightarrow> selection \<Rightarrow> selection" where
  "remove k s = s\<lparr>selected := fold (remove_row k (selected s)) (obj_keys (selected s)) []\<rparr>"

text \<open>
  Modelled from the spec: the setter of the published property \<open>multi\<close> is missing (the
  kind machinery generates it). The spec describes a published property with a generated
  accessor and a changed-hook: the setter stores the value and calls \<open>multiChanged\<close>.
\<close>

definition setMulti :: "bool \<Rightarrow> selection \<Rightarrow> selection" where
  "setMulti m s = multiChanged (s\<lparr>multi := m\<rparr>)"

section \<open>Sequences of calls\<close>

datatype call =
    Clear
  | SetByKey key bool jsval
  | Select key jsval
  | Deselect key
  | Toggle key jsval
  | Remove int
  | SetMulti bool

fun perform :: "call \<Rightarrow> selection \<Rightarrow> selection" where
  "perform Clear s = clear s"
| "perform (SetByKey k b d) s = setByKey k b d s"
| "perform (Select k d) s = select k d s"
| "perform (Deselect k) s = deselect k s"
| "perform (Toggle k d) s = toggle k d s"
| "perform (Remove n) s = remove n s"
| "perform (SetMulti m) s = setMulti m s"

definition run :: "call list \<Rightarrow> selection \<Rightarrow> selection" where
  "run cs s = fold perform cs s"

section \<open>Properties of states and of notification traces\<close>

text \<open>Every payload stored in \<open>selected\<close> is truthy.\<close>

definition all_truthy :: "obj \<Rightarrow> bool" where
  "all_truthy ob = list_all (\<lambda>pv. truthy (snd pv)) ob"

text \<open>\<open>only_entry ob p\<close>: the object is empty or holds the property \<open>p\<close> and nothing else.\<close>

fun only_entry :: "obj \<Rightarrow> pname \<Rightarrow> bool" where
  "only_entry [] p = True"
| "only_entry [(q, v)] p = (q = p)"
| "only_entry (e # f # ps) p = False"

text \<open>
  The invariant of single mode: when \<open>multi\<close> is false, \<open>selected\<close> holds at most the
  entry of \<open>lastSelected\<close>.
\<close>

definition single_inv :: "selection \<Rightarrow> bool" where
  "single_inv s = (multi s \<or> only_entry (selected s) (pkey (lastSelected s)))"

text \<open>
  The calls that keep the invariant of single mode: all but \<open>setByKey(k, true, d)\<close> and
  \<open>remove(k)\<close>, with keys that are safe as numbers, and with \<open>toggle(k)\<close> in single mode
  only where \<open>lastSelected\<close> and \<open>k\<close>, if the comparison takes them for equal, name one
  property (the comparison being determined). \<open>calls_ok cs s\<close> says this of every call
  of \<open>cs\<close>, run from \<open>s\<close>.
\<close>

fun call_ok :: "call \<Rightarrow> selection \<Rightarrow> bool" where
  "call_ok Clear s = True"
| "call_ok (SetMulti m) s = True"
| "call_ok (SetByKey k b d) s = (\<not> b \<and> safe_key k)"
| "call_ok (Select k d) s = safe_key k"
| "call_ok (Deselect k) s = safe_key k"
| "call_ok (Remove n) s = False"
| "call_ok (Toggle k d) s =
     (safe_key k \<and>
      (multi s \<or>
       (loose_known (lastSelected s) k \<and> safe_key (lastSelected s)
        \<and> (loose_ne (lastSelected s) k \<or> pkey (lastSelected s) = pkey k))))"

fun calls_ok :: "call list \<Rightarrow> selection \<Rightarrow> bool" where
  "calls_ok [] s = True"
| "calls_ok (c # cs) s = (call_ok c s \<and> calls_ok cs (perform c s))"

text \<open>Every own property of the object is named by the numeral of a safe integer.\<close>

definition numeric_rows :: "obj \<Rightarrow> bool" where
  "numeric_rows ob =
     list_all (\<lambda>row. case numeral_of row of Some n \<Rightarrow> safe_integer n | None \<Rightarrow> False)
       (obj_keys ob)"





section \<open>Numerals\<close>

lemmas numeral_defs = to_number_def nan_string_def numeral_of_def decimal_def
  decimal_nat.simps digit_chars_def digit_value_def safe_integer_def all_digits_def

lemma value_nat_snoc: "value_nat (cs @ [c]) a = 10 * value_nat cs a + digit_value c"
  by (induction cs arbitrary: a) simp_all

lemma below_ten: "(d::nat) < 10 \<Longrightarrow> d \<in> {0, 1, 2, 3, 4, 5, 6, 7, 8, 9}"
  by auto

lemma digit_value_digit: "d < 10 \<Longrightarrow> digit_value (digit_chars ! d) = d"
  using below_ten [of d] by (auto simp: digit_chars_def digit_value_def)

lemma digit_not_minus: "d < 10 \<Longrightarrow> digit_chars ! d \<noteq> CHR ''-''"
  using below_ten [of d] by (auto simp: digit_chars_def)

lemma value_decimal_nat: "value_nat (decimal_nat n) 0 = n"
proof (induction n rule: decimal_nat.induct)
  case (1 n)
  show ?case
  proof (cases "n < 10")
    case True
    then show ?thesis
      by (simp add: decimal_nat.simps [of n] digit_value_digit)
  next
    case False
    with 1 have "value_nat (decimal_nat (n div 10)) 0 = n div 10" by simp
    with False show ?thesis
      by (simp add: decimal_nat.simps [of n] value_nat_snoc digit_value_digit)
  qed
qed

lemma decimal_nat_head: "decimal_nat n \<noteq> [] \<and> hd (decimal_nat n) \<noteq> CHR ''-''"
proof (induction n rule: decimal_nat.induct)
  case (1 n)
  show ?case
  proof (cases "n < 10")
    case True
    then show ?thesis by (simp add: decimal_nat.simps [of n] digit_not_minus)
  next
    case False
    with 1 show ?thesis by (simp add: decimal_nat.simps [of n])
  qed
qed

lemma numeral_value_decimal: "numeral_value (decimal n) = n"
proof (cases "n < 0")
  case True
  then show ?thesis by (simp add: decimal_def value_decimal_nat)
next
  case False
  obtain c cs where e: "decimal_nat (nat n) = c # cs" and "c \<noteq> CHR ''-''"
    using decimal_nat_head [of "nat n"] by (cases "decimal_nat (nat n)") auto
  then have "numeral_value (decimal_nat (nat n)) = int (value_nat (decimal_nat (nat n)) 0)"
    by simp
  with False show ?thesis by (simp add: decimal_def value_decimal_nat)
qed

lemma decimal_inject: "(decimal a = decimal b) = (a = b)"
  by (metis numeral_value_decimal)

lemma numeral_of_decimal: "numeral_of (decimal n) = Some n"
  by (simp add: numeral_of_def numeral_value_decimal)

lemma numeral_of_Some: "numeral_of s = Some n \<Longrightarrow> s = decimal n"
  by (auto simp: numeral_of_def split: if_splits)

lemma digit_is_digit: "d < 10 \<Longrightarrow> digit_chars ! d \<in> set digit_chars"
  by (rule nth_mem) (simp add: digit_chars_def)

lemma decimal_nat_digits: "list_all (\<lambda>c. c \<in> set digit_chars) (decimal_nat n)"
proof (induction n rule: decimal_nat.induct)
  case (1 n)
  show ?case
  proof (cases "n < 10")
    case True
    then show ?thesis by (simp add: decimal_nat.simps [of n] digit_is_digit)
  next
    case False
    with 1 show ?thesis by (simp add: decimal_nat.simps [of n] digit_is_digit)
  qed
qed

lemma all_digits_decimal_nat: "all_digits (decimal_nat n)"
  using decimal_nat_head [of n] decimal_nat_digits [of n] by (simp add: all_digits_def)

lemma integer_literal_decimal: "integer_literal (decimal n) = Some n"
proof (cases "n < 0")
  case True
  then show ?thesis
    by (simp add: decimal_def all_digits_decimal_nat value_decimal_nat)
next
  case False
  obtain c cs where e: "decimal_nat (nat n) = c # cs" and c: "c \<noteq> CHR ''-''"
    using decimal_nat_head [of "nat n"] by (cases "decimal_nat (nat n)") auto
  have "c \<in> set digit_chars"
    using decimal_nat_digits [of "nat n"] by (simp add: e)
  then have p: "c \<noteq> CHR ''+''" by (auto simp: digit_chars_def)
  have "integer_literal (c # cs) = Some (int (value_nat (c # cs) 0))"
    using all_digits_decimal_nat [of "nat n"] c p by (simp add: e)
  with False show ?thesis
    using value_decimal_nat [of "nat n"] by (simp add: decimal_def e)
qed

lemma to_number_decimal: "safe_integer n \<Longrightarrow> to_number (decimal n) = TInt n"
  by (simp add: to_number_def integer_literal_decimal)

lemma members_nan: "\<forall>p\<in>set object_members. numeral_of p = None \<and> to_number p = TNaN"
  unfolding object_members_def by (simp add: numeral_defs)

lemma member_no_numeral: "is_member p \<Longrightarrow> numeral_of p = None"
  using members_nan by (simp add: is_member_def)

lemma member_nan: "is_member p \<Longrightarrow> to_number p = TNaN"
  using members_nan by (simp add: is_member_def)

lemma decimal_not_member: "\<not> is_member (decimal n)"
  using member_no_numeral [of "decimal n"] by (auto simp: numeral_of_decimal)

lemma proto_member: "is_member ''__proto__''"
  by (simp add: is_member_def object_members_def)

lemma decimal_not_proto: "decimal n \<noteq> ''__proto__''"
  using decimal_not_member [of n] proto_member by auto

section \<open>The object operations\<close>

lemmas method_defs = setByKey_def deselect_def highlander_def select_def toggle_def
  clear_def multiChanged_def setMulti_def isSelected_def doSelect_def doDeselect_def
  doChange_def Let_def

lemma obj_keys_Nil: "obj_keys [] = []"
  by (simp add: obj_keys_def)

lemma obj_has_Nil: "\<not> obj_has [] p"
  by (simp add: obj_has_def obj_keys_def)

lemma obj_has_Cons: "obj_has ((q, v) # ob) p = (q = p \<or> obj_has ob p)"
  by (auto simp: obj_has_def obj_keys_def)

lemma obj_get_absent: "\<not> obj_has ob p \<Longrightarrow> obj_get ob p = inherited p"
  by (induction ob) (auto simp: obj_has_Cons)

lemma obj_get_put: "obj_get (obj_put p v ob) q = (if q = p then v else obj_get ob q)"
  by (induction p v ob rule: obj_put.induct) auto

lemma obj_has_put: "obj_has (obj_put p v ob) q = (q = p \<or> obj_has ob q)"
  by (induction p v ob rule: obj_put.induct) (auto simp: obj_has_Cons obj_has_Nil)

lemma obj_get_set:
  "obj_get (obj_set p v ob) q =
     (if q = p \<and> (p \<noteq> ''__proto__'' \<or> obj_has ob p) then v else obj_get ob q)"
  by (auto simp: obj_set_def obj_get_put)

lemma obj_has_set:
  "obj_has (obj_set p v ob) q = (obj_has ob q \<or> (q = p \<and> p \<noteq> ''__proto__''))"
  by (auto simp: obj_set_def obj_has_put)







lemma only_entry_shape: "only_entry ob p \<Longrightarrow> ob = [] \<or> (\<exists>v. ob = [(p, v)])"
  by (induction ob p rule: only_entry.induct) auto

subsection \<open>Truthy payloads\<close>

lemma truthy_or_true: "truthy (or_true d)"
  by (simp add: or_true_def)

lemma truthy_inherited: "truthy (inherited p) = is_member p"
  by (simp add: inherited_def)

lemma all_truthy_Nil: "all_truthy []"
  by (simp add: all_truthy_def)

lemma all_truthy_put: "truthy v \<Longrightarrow> all_truthy ob \<Longrightarrow> all_truthy (obj_put p v ob)"
  by (induction p v ob rule: obj_put.induct) (auto simp: all_truthy_def)

lemma all_truthy_set: "truthy v \<Longrightarrow> all_truthy ob \<Longrightarrow> all_truthy (obj_set p v ob)"
  by (simp add: obj_set_def all_truthy_put)

lemma all_truthy_delete: "all_truthy ob \<Longrightarrow> all_truthy (obj_delete p ob)"
  by (induction p ob rule: obj_delete.induct) (auto simp: all_truthy_def)

lemma all_truthy_get: "all_truthy ob \<Longrightarrow> truthy (obj_get ob p) = (obj_has ob p \<or> is_member p)"
  by (induction ob p rule: obj_get.induct)
     (auto simp: all_truthy_def obj_has_Cons obj_has_Nil truthy_inherited)

subsection \<open>The loop of remove\<close>

lemma remove_row_decimal:
  "safe_integer i \<Longrightarrow>
   remove_row k sel (decimal i) new =
     (if i < k then obj_set (decimal i) (obj_get sel (decimal i)) new
      else if i > k then obj_set (decimal (i - 1)) (obj_get sel (decimal i)) new
      else new)"
  by (simp add: to_number_decimal)

lemma remove_row_truthy:
  "all_truthy new \<Longrightarrow> truthy (obj_get sel row) \<Longrightarrow> all_truthy (remove_row k sel row new)"
  by (cases "to_number row") (simp_all add: all_truthy_set)

declare remove_row.simps [simp del]

lemma numeric_rows_decimal:
  "numeric_rows ob \<Longrightarrow> row \<in> set (obj_keys ob) \<Longrightarrow> \<exists>n. safe_integer n \<and> row = decimal n"
proof -
  assume "numeric_rows ob" "row \<in> set (obj_keys ob)"
  then have "case numeral_of row of Some n \<Rightarrow> safe_integer n | None \<Rightarrow> False"
    by (simp add: numeric_rows_def list_all_iff)
  then obtain n where "numeral_of row = Some n" "safe_integer n"
    by (cases "numeral_of row") auto
  then show ?thesis using numeral_of_Some by blast
qed

text \<open>
  The loop, started with rows that are numerals of safe integers and any partly built
  \<open>newSelected\<close>: what it leaves under a numeral, and which names it leaves.
\<close>

lemma remove_fold_get:
  assumes "\<forall>row\<in>set rows. \<exists>n. safe_integer n \<and> row = decimal n"
  shows "obj_get (fold (remove_row k sel) rows new) (decimal r) =
     (if r < k \<and> decimal r \<in> set rows then obj_get sel (decimal r)
      else if k \<le> r \<and> decimal (r + 1) \<in> set rows then obj_get sel (decimal (r + 1))
      else obj_get new (decimal r))"
  using assms
proof (induction rows arbitrary: new)
  case Nil
  then show ?case by simp
next
  case (Cons row rows)
  then obtain i where i: "safe_integer i" "row = decimal i" by auto
  from Cons.prems have "\<forall>row\<in>set rows. \<exists>n. safe_integer n \<and> row = decimal n" by simp
  note IH = Cons.IH [OF this]
  from i show ?case
    by (auto simp: IH remove_row_decimal obj_get_set decimal_inject decimal_not_proto)
qed

lemma remove_fold_has:
  assumes "\<forall>row\<in>set rows. \<exists>n. safe_integer n \<and> row = decimal n"
  shows "obj_has (fold (remove_row k sel) rows new) (decimal r) =
     (obj_has new (decimal r)
      \<or> (r < k \<and> decimal r \<in> set rows) \<or> (k \<le> r \<and> decimal (r + 1) \<in> set rows))"
  using assms
proof (induction rows arbitrary: new)
  case Nil
  then show ?case by simp
next
  case (Cons row rows)
  then obtain i where i: "safe_integer i" "row = decimal i" by auto
  from Cons.prems have "\<forall>row\<in>set rows. \<exists>n. safe_integer n \<and> row = decimal n" by simp
  note IH = Cons.IH [OF this]
  from i show ?case
    by (auto simp: IH remove_row_decimal obj_has_set decimal_inject decimal_not_proto)
qed

lemma remove_fold_truthy:
  "all_truthy new \<Longrightarrow> \<forall>row\<in>set rows. truthy (obj_get sel row) \<Longrightarrow>
   all_truthy (fold (remove_row k sel) rows new)"
proof (induction rows arbitrary: new)
  case Nil
  then show ?case by simp
next
  case (Cons row rows)
  have "all_truthy (remove_row k sel row new)"
    using Cons.prems by (simp add: remove_row_truthy)
  with Cons show ?case by simp
qed

lemma all_truthy_remove:
  assumes "all_truthy (selected s)"
  shows "all_truthy (selected (remove k s))"
proof -
  have "\<forall>row\<in>set (obj_keys (selected s)). truthy (obj_get (selected s) row)"
    using assms by (simp add: all_truthy_get obj_has_def)
  then show ?thesis
    by (simp add: remove_def remove_fold_truthy all_truthy_Nil)
qed

subsection \<open>Invariants along calls\<close>

lemma run_Nil: "run [] s = s"
  by (simp add: run_def)

lemma run_Cons: "run (c # cs) s = run cs (perform c s)"
  by (simp add: run_def)

lemma all_truthy_perform:
  assumes "all_truthy (selected s)"
  shows "all_truthy (selected (perform c s))"
proof (cases c)
  case (Remove n)
  with assms show ?thesis by (simp add: all_truthy_remove)
qed (use assms in \<open>auto simp: method_defs all_truthy_set all_truthy_delete truthy_or_true
      all_truthy_Nil\<close>)

lemma all_truthy_run:
  "all_truthy (selected s) \<Longrightarrow> all_truthy (selected (run cs s))"
  by (induction cs arbitrary: s) (simp_all add: run_Nil run_Cons all_truthy_perform)

lemma all_truthy_create: "all_truthy (selected (create m))"
  by (simp add: create_def clear_def all_truthy_Nil)

lemma single_inv_create: "single_inv (create m)"
  by (simp add: single_inv_def create_def clear_def)

lemma not_member_not_proto: "\<not> is_member p \<Longrightarrow> p \<noteq> ''__proto__''"
  using proto_member by auto

text \<open>The three methods that act on one key, in a single-mode state that holds the invariant.\<close>

lemma single_inv_deselect:
  assumes "\<not> multi s" "only_entry (selected s) (pkey (lastSelected s))"
  shows "only_entry (selected (deselect k s)) (pkey (lastSelected (deselect k s)))
         \<and> \<not> multi (deselect k s)"
proof -
  from assms(2) consider "selected s = []" | v where "selected s = [(pkey (lastSelected s), v)]"
    using only_entry_shape by blast
  then show ?thesis
    using assms(1) by cases (auto simp: method_defs)
qed

lemma deselect_last_empties:
  assumes "\<not> multi s" "only_entry (selected s) (pkey (lastSelected s))"
    "all_truthy (selected s)"
  shows "selected (deselect (lastSelected s) s) = []
         \<and> lastSelected (deselect (lastSelected s) s) = lastSelected s
         \<and> \<not> multi (deselect (lastSelected s) s)"
proof -
  from assms(2) consider "selected s = []" | v where "selected s = [(pkey (lastSelected s), v)]"
    using only_entry_shape by blast
  then show ?thesis
  proof cases
    case 1
    with assms(1) show ?thesis by (auto simp: method_defs)
  next
    case 2
    with assms(3) have "truthy v" by (simp add: all_truthy_def)
    with 2 assms(1) show ?thesis by (auto simp: method_defs)
  qed
qed

lemma unselected_not_member:
  assumes "only_entry ob p" "all_truthy ob" "\<not> truthy (obj_get ob q)"
  shows "\<not> is_member q \<and> \<not> obj_has ob q"
  using assms by (simp add: all_truthy_get)

lemma setByKey_true_on_empty:
  assumes "selected s = []" "\<not> is_member (pkey k)"
  shows "selected (setByKey k True d s) = [(pkey k, or_true d)]
         \<and> lastSelected (setByKey k True d s) = k
         \<and> multi (setByKey k True d s) = multi s"
  using assms not_member_not_proto [of "pkey k"]
  by (simp add: method_defs obj_set_def)

lemma setByKey_false_on_empty:
  assumes "selected s = []"
  shows "selected (setByKey k False d s) = []
         \<and> lastSelected (setByKey k False d s) = lastSelected s
         \<and> multi (setByKey k False d s) = multi s"
  using assms by (simp add: method_defs)

lemma single_inv_select:
  assumes "\<not> multi s" "only_entry (selected s) (pkey (lastSelected s))"
    "all_truthy (selected s)"
  shows "only_entry (selected (select k d s)) (pkey (lastSelected (select k d s)))
         \<and> \<not> multi (select k d s)"
proof (cases "truthy (isSelected k s)")
  case True
  with assms show ?thesis by (simp add: select_def)
next
  case False
  with assms have nm: "\<not> is_member (pkey k)"
    using unselected_not_member by (simp add: isSelected_def)
  let ?h = "deselect (lastSelected s) s"
  from assms have h: "selected ?h = []" "\<not> multi ?h"
    using deselect_last_empties by auto
  from False assms(1) have "select k d s = setByKey k True d ?h"
    by (simp add: select_def highlander_def)
  with h nm show ?thesis
    using setByKey_true_on_empty [of ?h k d] by simp
qed

lemma flip_on_empty:
  assumes "selected s = []" "\<not> multi s"
  shows "only_entry (selected (setByKey k (\<not> truthy (isSelected k s)) d s))
           (pkey (lastSelected (setByKey k (\<not> truthy (isSelected k s)) d s)))
         \<and> \<not> multi (setByKey k (\<not> truthy (isSelected k s)) d s)"
proof (cases "is_member (pkey k)")
  case True
  with assms have "truthy (isSelected k s)"
    by (simp add: isSelected_def truthy_inherited)
  with assms show ?thesis
    using setByKey_false_on_empty [of s k d] by simp
next
  case False
  with assms have "\<not> truthy (isSelected k s)"
    by (simp add: isSelected_def truthy_inherited)
  with assms False show ?thesis
    using setByKey_true_on_empty [of s k d] by simp
qed

lemma single_inv_toggle:
  assumes "\<not> multi s" "only_entry (selected s) (pkey (lastSelected s))"
    "all_truthy (selected s)"
    "loose_ne (lastSelected s) k \<or> pkey (lastSelected s) = pkey k"
  shows "only_entry (selected (toggle k d s)) (pkey (lastSelected (toggle k d s)))
         \<and> \<not> multi (toggle k d s)"
proof (cases "loose_ne (lastSelected s) k")
  case True
  let ?h = "deselect (lastSelected s) s"
  from assms have h: "selected ?h = []" "\<not> multi ?h"
    using deselect_last_empties by auto
  from True assms(1) have "toggle k d s = setByKey k (\<not> truthy (isSelected k ?h)) d ?h"
    by (simp add: toggle_def Let_def)
  with h show ?thesis using flip_on_empty [of ?h k d] by simp
next
  case False
  with assms(4) have same: "pkey (lastSelected s) = pkey k" by simp
  from False have t: "toggle k d s = setByKey k (\<not> truthy (isSelected k s)) d s"
    by (simp add: toggle_def Let_def)
  from assms(2) consider "selected s = []" | v where "selected s = [(pkey (lastSelected s), v)]"
    using only_entry_shape by blast
  then show ?thesis
  proof cases
    case 1
    with assms(1) t show ?thesis using flip_on_empty [of s k d] by simp
  next
    case 2
    with assms(3) have "truthy v" by (simp add: all_truthy_def)
    with 2 same assms(1) t show ?thesis by (simp add: method_defs)
  qed
qed

lemma single_inv_perform:
  assumes "single_inv s" "all_truthy (selected s)" "call_ok c s"
  shows "single_inv (perform c s)"
proof (cases "multi s")
  case True
  with assms(3) show ?thesis
    by (cases c) (auto simp: single_inv_def method_defs)
next
  case False
  with assms(1) have e: "only_entry (selected s) (pkey (lastSelected s))"
    by (simp add: single_inv_def)
  show ?thesis
  proof (cases c)
    case Clear
    then show ?thesis by (simp add: single_inv_def clear_def)
  next
    case (SetByKey k b d)
    from e consider "selected s = []" | v where "selected s = [(pkey (lastSelected s), v)]"
      using only_entry_shape by blast
    then show ?thesis
      using SetByKey assms(3) by cases (auto simp: single_inv_def method_defs)
  next
    case (Select k d)
    with False e assms(2) show ?thesis
      using single_inv_select [of s k d] by (simp add: single_inv_def)
  next
    case (Deselect k)
    with False e show ?thesis
      using single_inv_deselect [of s k] by (simp add: single_inv_def)
  next
    case (Toggle k d)
    with False e assms(2,3) show ?thesis
      using single_inv_toggle [of s k d] by (simp add: single_inv_def)
  next
    case (Remove n)
    with assms(3) show ?thesis by simp
  next
    case (SetMulti m)
    then show ?thesis by (simp add: single_inv_def method_defs)
  qed
qed

lemma single_inv_run:
  "calls_ok cs s \<Longrightarrow> single_inv s \<Longrightarrow> all_truthy (selected s) \<Longrightarrow> single_inv (run cs s)"
  by (induction cs arbitrary: s)
     (simp_all add: run_Nil run_Cons single_inv_perform all_truthy_perform)

lemmas eval_defs = run_def create_def method_defs or_true_def obj_set_def obj_has_def
  obj_keys_def inherited_def is_member_def object_members_def numeral_defs remove_def
  remove_row.simps single_inv_def all_truthy_def

subsection \<open>The effect of setByKey and deselect\<close>

lemma setByKey_true_effect:
  "selected (setByKey k True d s) = obj_set (pkey k) (or_true d) (selected s)
   \<and> lastSelected (setByKey k True d s) = k
   \<and> multi (setByKey k True d s) = multi s
   \<and> fired (setByKey k True d s) =
       fired s @ [OnSelect k (obj_get (obj_set (pkey k) (or_true d) (selected s)) (pkey k)),
                  OnChange]"
  by (simp add: setByKey_def doSelect_def doChange_def Let_def)






lemma get_set_same:
  "\<not> is_member p \<Longrightarrow> obj_get (obj_set p v ob) p = v"
  using not_member_not_proto [of p] by (simp add: obj_get_set)




text \<open>
  Keys that the comparison of \<open>toggle\<close> takes for equal may name two properties: in
  single mode \<open>select(0)\<close> then \<open>toggle('')\<close> skips the deselect and leaves two entries.
\<close>

lemma toggle_loosely_equal_keys:
  "selected (run [Select (KNum 0) VUndef, Toggle (KStr []) VUndef] (create False))
     = [(''0'', VBool True), ([], VBool True)]
   \<and> \<not> single_inv (run [Select (KNum 0) VUndef, Toggle (KStr []) VUndef] (create False))
   \<and> \<not> call_ok (Toggle (KStr []) VUndef) (select (KNum 0) VUndef (create False))"
  by (simp add: eval_defs)

text \<open>
  \<open>remove\<close> converts the name of each row to a number: the entry selected as \<open>'01'\<close> is
  row 1 to \<open>remove(0)\<close> and moves to row 0, and an entry whose name is no number is
  dropped.
\<close>

lemma remove_converts_row_names:
  "selected (remove 0 (select (KStr ''01'') (VStr ''x'') (create True))) = [(''0'', VStr ''x'')]
   \<and> selected (remove 0 (select (KStr ''abc'') VUndef (create True))) = []"
  by (simp add: eval_defs)

section \<open>The invariant of single mode\<close>

text \<open>
  C1, as amended. In a state where the invariant of single mode holds and every stored
  payload is truthy, each of \<open>clear\<close>, \<open>select\<close>, \<open>deselect\<close>, \<open>setByKey(k, false, d)\<close>
  and a change of \<open>multi\<close> leaves both in force (number keys being safe integers), and
  so does \<open>toggle(k)\<close> in multi mode and, in single mode, where \<open>lastSelected\<close> and
  \<open>k\<close> name one property whenever the comparison \<open>!=\<close> takes them for equal (the two
  being safe as numbers and their comparison determined). So every state reached from
  \<open>create\<close> through such calls
  has, when \<open>multi\<close> is false, at most one entry in \<open>selected\<close>, the one of
  \<open>lastSelected\<close>. \<open>setByKey(k, true, d)\<close> stores its entry without deselecting and is
  not among these calls.
\<close>

theorem single_mode_invariant:
  "(single_inv s \<and> all_truthy (selected s) \<and> call_ok c s \<longrightarrow>
      single_inv (perform c s) \<and> all_truthy (selected (perform c s)))
   \<and> (calls_ok cs (create m) \<longrightarrow> single_inv (run cs (create m)))"
proof (intro conjI impI)
  assume "single_inv s \<and> all_truthy (selected s) \<and> call_ok c s"
  then show "single_inv (perform c s)" by (simp add: single_inv_perform)
next
  assume "single_inv s \<and> all_truthy (selected s) \<and> call_ok c s"
  then show "all_truthy (selected (perform c s))" by (simp add: all_truthy_perform)
next
  assume "calls_ok cs (create m)"
  then show "single_inv (run cs (create m))"
    by (simp add: single_inv_run single_inv_create all_truthy_create)
qed

text \<open>
  The theorem at work: single mode with row 2 selected, then \<open>toggle('5')\<close>; and a run
  that passes through multi mode with two rows selected and back.
\<close>

theorem single_mode_invariant_witness:
  "single_inv (select (KNum 2) VUndef (create False))
   \<and> all_truthy (selected (select (KNum 2) VUndef (create False)))
   \<and> call_ok (Toggle (KStr ''5'') VUndef) (select (KNum 2) VUndef (create False))
   \<and> selected (perform (Toggle (KStr ''5'') VUndef) (select (KNum 2) VUndef (create False)))
       = [(''5'', VBool True)]
   \<and> single_inv (perform (Toggle (KStr ''5'') VUndef) (select (KNum 2) VUndef (create False)))
   \<and> calls_ok
        [SetMulti True, Select (KNum 1) VUndef, Select (KNum 2) VUndef, SetMulti False,
         Toggle (KNum 7) VUndef, Select (KStr ''constructor'') VUndef] (create False)
   \<and> single_inv (run
        [SetMulti True, Select (KNum 1) VUndef, Select (KNum 2) VUndef, SetMulti False,
         Toggle (KNum 7) VUndef, Select (KStr ''constructor'') VUndef] (create False))"
  using single_mode_invariant [of "select (KNum 2) VUndef (create False)"
      "Toggle (KStr ''5'') VUndef"
      "[SetMulti True, Select (KNum 1) VUndef, Select (KNum 2) VUndef, SetMulti False,
        Toggle (KNum 7) VUndef, Select (KStr ''constructor'') VUndef]" False]
  by (simp add: eval_defs)

text \<open>
  C1 as stated fails: in single mode, \<open>setByKey(1, true)\<close> and \<open>setByKey(2, true)\<close> after
  \<open>create\<close> leave two entries in \<open>selected\<close>.
\<close>

theorem single_mode_invariant_counterexample:
  "\<not> multi (run [SetByKey (KNum 1) True VUndef, SetByKey (KNum 2) True VUndef] (create False))
   \<and> selected (run [SetByKey (KNum 1) True VUndef, SetByKey (KNum 2) True VUndef] (create False))
       = [(''1'', VBool True), (''2'', VBool True)]
   \<and> \<not> single_inv (run [SetByKey (KNum 1) True VUndef, SetByKey (KNum 2) True VUndef] (create False))"
  by (simp add: eval_defs)

section \<open>select\<close>




section \<open>remove\<close>

text \<open>
  C3. For a selection set whose keys are numbers (every own property of \<open>selected\<close> is
  named by the numeral of a safe integer) and a number \<open>key\<close>: after \<open>remove(key)\<close> a
  row below \<open>key\<close> holds what it held, and a row \<open>r\<close> at or above \<open>key\<close> holds what row
  \<open>r + 1\<close> held, so the entry at \<open>key\<close> is dropped and every entry above it is stored
  under its row minus one, with its payload. From \<open>{1: true, 2: true, 4: true}\<close>,
  \<open>remove(2)\<close> yields \<open>{1: true, 3: true}\<close>.
\<close>

theorem remove_shifts_rows:
  assumes "numeric_rows (selected s)"
  shows "obj_get (selected (remove k s)) (decimal r) =
     (if r < k then obj_get (selected s) (decimal r)
      else obj_get (selected s) (decimal (r + 1)))
   \<and> obj_has (selected (remove k s)) (decimal r) =
     (if r < k then obj_has (selected s) (decimal r)
      else obj_has (selected s) (decimal (r + 1)))
   \<and> selected (remove 2 (s\<lparr>selected :=
        [(''1'', VBool True), (''2'', VBool True), (''4'', VBool True)]\<rparr>)) =
      [(''1'', VBool True), (''3'', VBool True)]"
proof (intro conjI)
  have rows: "\<forall>row\<in>set (obj_keys (selected s)). \<exists>n. safe_integer n \<and> row = decimal n"
    using assms numeric_rows_decimal by blast
  have absent: "decimal j \<notin> set (obj_keys (selected s)) \<Longrightarrow>
                obj_get (selected s) (decimal j) = VUndef" for j
    using obj_get_absent [of "selected s" "decimal j"]
    by (simp add: obj_has_def inherited_def decimal_not_member)
  show "obj_get (selected (remove k s)) (decimal r) =
     (if r < k then obj_get (selected s) (decimal r)
      else obj_get (selected s) (decimal (r + 1)))"
    using absent [of r] absent [of "r + 1"]
    by (simp add: remove_def remove_fold_get [OF rows] inherited_def decimal_not_member)
  show "obj_has (selected (remove k s)) (decimal r) =
     (if r < k then obj_has (selected s) (decimal r)
      else obj_has (selected s) (decimal (r + 1)))"
    by (simp add: remove_def remove_fold_has [OF rows] obj_has_Nil) (simp add: obj_has_def)
  show "selected (remove 2 (s\<lparr>selected :=
        [(''1'', VBool True), (''2'', VBool True), (''4'', VBool True)]\<rparr>)) =
      [(''1'', VBool True), (''3'', VBool True)]"
    by (simp add: eval_defs)
qed

text \<open>Rows 1, 5 and 9 with payloads, \<open>remove(5)\<close>: row 8 then holds what row 9 held.\<close>

theorem remove_shifts_rows_witness:
  "numeric_rows [(''1'', VStr ''a''), (''5'', VStr ''b''), (''9'', VStr ''c'')]
   \<and> obj_get (selected (remove 5 (create True\<lparr>selected :=
       [(''1'', VStr ''a''), (''5'', VStr ''b''), (''9'', VStr ''c'')]\<rparr>))) (decimal 8)
       = VStr ''c''
   \<and> \<not> obj_has (selected (remove 5 (create True\<lparr>selected :=
       [(''1'', VStr ''a''), (''5'', VStr ''b''), (''9'', VStr ''c'')]\<rparr>))) (decimal 5)
   \<and> selected (remove 5 (create True\<lparr>selected :=
       [(''1'', VStr ''a''), (''5'', VStr ''b''), (''9'', VStr ''c'')]\<rparr>))
       = [(''1'', VStr ''a''), (''8'', VStr ''c'')]"
proof -
  have h: "numeric_rows (selected (create True\<lparr>selected :=
       [(''1'', VStr ''a''), (''5'', VStr ''b''), (''9'', VStr ''c'')]\<rparr>))"
    by (simp add: numeric_rows_def eval_defs)
  from remove_shifts_rows [OF h, of 5 8] remove_shifts_rows [OF h, of 5 5] h
  show ?thesis
    by (simp add: eval_defs)
qed

section \<open>What remove leaves alone\<close>

text \<open>
  C8. \<open>remove(k)\<close> changes only \<open>selected\<close>: \<open>lastSelected\<close> (whatever its relation to
  \<open>k\<close>) and \<open>multi\<close> are what they were, and nothing is emitted.
\<close>

theorem remove_frame:
  "lastSelected (remove k s) = lastSelected s
   \<and> multi (remove k s) = multi s
   \<and> fired (remove k s) = fired s
   \<and> remove k s = s\<lparr>selected := selected (remove k s)\<rparr>"
  by (simp add: remove_def)

text \<open>
  Single mode with row 4 selected, then \<open>remove(2)\<close>: the entry moves to row 3 and
  \<open>lastSelected\<close> is still 4.
\<close>

theorem remove_frame_witness:
  "lastSelected (remove 2 (select (KNum 4) VUndef (create False))) = KNum 4
   \<and> selected (remove 2 (select (KNum 4) VUndef (create False))) = [(''3'', VBool True)]
   \<and> \<not> multi (remove 2 (select (KNum 4) VUndef (create False)))"
  using remove_frame [of 2 "select (KNum 4) VUndef (create False)"]
  by (simp add: eval_defs)

section \<open>Replacing the selection in single mode\<close>




section \<open>toggle\<close>





section \<open>setByKey and deselect\<close>



text \<open>
  \<open>deselect(k)\<close> for a key that has no entry and names no member of \<open>Object.prototype\<close>
  returns the state as it was.
\<close>

lemma deselect_plain_noop:
  "\<not> is_member (pkey k) \<Longrightarrow> \<not> obj_has (selected s) (pkey k) \<Longrightarrow> deselect k s = s"
  by (simp add: deselect_def isSelected_def obj_get_absent inherited_def)

text \<open>
  C7, at the input where the code departs from it. On a new Selection nothing is
  selected, and \<open>deselect('constructor')\<close> is no no-op: \<open>selected['constructor']\<close> reads
  the member inherited from \<open>Object.prototype\<close>, the guard of \<open>deselect\<close> passes, and a
  deselect and a change notification are emitted.
\<close>

theorem deselect_inherited_name:
  "\<not> obj_has (selected (create False)) (pkey (KStr ''constructor''))
   \<and> isSelected (KStr ''constructor'') (create False) = VMember ''constructor''
   \<and> deselect (KStr ''constructor'') (create False) \<noteq> create False
   \<and> fired (deselect (KStr ''constructor'') (create False)) =
       [OnDeselect (KStr ''constructor'') (VMember ''constructor''), OnChange]"
  by (simp add: eval_defs)

section \<open>Stored payloads\<close>

text \<open>
  Every payload in a state reached from \<open>create\<close> is truthy. For a key that names no
  member of \<open>Object.prototype\<close>, \<open>setByKey(k, true, d)\<close> stores \<open>d || true\<close>, and in a
  state whose payloads are truthy \<open>isSelected(k)\<close> is truthy exactly when \<open>k\<close> has an
  entry.
\<close>

lemma stored_payloads_truthy:
  "all_truthy (selected (run cs (create m)))
   \<and> (\<not> is_member (pkey k) \<longrightarrow>
        isSelected k (setByKey k True d s) = or_true d
        \<and> (all_truthy (selected s) \<longrightarrow>
             truthy (isSelected k s) = obj_has (selected s) (pkey k)))"
  by (simp add: all_truthy_run all_truthy_create isSelected_def all_truthy_get
      setByKey_true_effect get_set_same)

text \<open>
  C9, at the inputs where the code departs from it. On a new Selection \<open>toString\<close> has
  no entry, yet \<open>isSelected('toString')\<close> is truthy: it reads the member inherited from
  \<open>Object.prototype\<close>. And \<open>setByKey('__proto__', true)\<close> stores no entry.
\<close>

theorem isSelected_inherited_name:
  "\<not> obj_has (selected (create False)) (pkey (KStr ''toString''))
   \<and> isSelected (KStr ''toString'') (create False) = VMember ''toString''
   \<and> truthy (isSelected (KStr ''toString'') (create False))
   \<and> selected (setByKey (KStr ''__proto__'') True VUndef (create False)) = []"
  by (simp add: eval_defs)

section \<open>Selecting a selected key in single mode\<close>

text \<open>
  C10. In single mode \<open>select(k, d)\<close> for a key that is selected returns the state as it
  was: \<open>selected\<close> (with the payload of \<open>k\<close>) and \<open>lastSelected\<close> are unchanged, \<open>d\<close> is
  not stored, and nothing is emitted.
\<close>

theorem select_selected_single_noop:
  "\<not> multi s \<Longrightarrow> truthy (isSelected k s) \<Longrightarrow> select k d s = s"
  by (simp add: select_def)

theorem select_selected_single_noop_witness:
  "\<not> multi (select (KNum 2) (VStr ''a'') (create False))
   \<and> truthy (isSelected (KNum 2) (select (KNum 2) (VStr ''a'') (create False)))
   \<and> select (KNum 2) (VStr ''b'') (select (KNum 2) (VStr ''a'') (create False)) =
       select (KNum 2) (VStr ''a'') (create False)
   \<and> isSelected (KNum 2) (select (KNum 2) (VStr ''b'') (select (KNum 2) (VStr ''a'')
        (create False))) = VStr ''a''"
proof -
  have h: "\<not> multi (select (KNum 2) (VStr ''a'') (create False))"
    "truthy (isSelected (KNum 2) (select (KNum 2) (VStr ''a'') (create False)))"
    by (simp_all add: eval_defs)
  from select_selected_single_noop [OF h, of "VStr ''b''"]
  have e: "select (KNum 2) (VStr ''b'') (select (KNum 2) (VStr ''a'') (create False)) =
        select (KNum 2) (VStr ''a'') (create False)" .
  have "isSelected (KNum 2) (select (KNum 2) (VStr ''a'') (create False)) = VStr ''a''"
    by (simp add: eval_defs)
  with h e show ?thesis by simp
qed

end
